theory Spec2Isabelle
  imports Main "HOL-Library.AList"
begin

section \<open>Data model of \<open>TodoWithScheduler\<close>\<close>

text \<open>
  A task is the dictionary built in \<open>add_task\<close> (lines 15-21 of \<open>todo_scheduler.py\<close>):
  the keys \<open>"id"\<close>, \<open>"task"\<close>, \<open>"priority"\<close>, \<open>"completed"\<close> and \<open>"created_at"\<close> become the
  fields \<open>task_id\<close>, \<open>task_name\<close>, \<open>priority\<close>, \<open>completed\<close> and \<open>created_at\<close>.
  Python integers are unbounded, so ids are \<open>int\<close>. The strings that the program only
  stores, copies and compares (names, priorities, timestamps, slot keys) are \<open>string\<close>.
  A time string, which the program parses, is a \<open>py_str\<close>: the list of the Unicode code
  points of a Python \<open>str\<close>.
\<close>

type_synonym py_str = "nat list"

text \<open>The code points of a string literal.\<close>

definition str :: "string \<Rightarrow> py_str" where
  "str s = map of_char s"

record task =
  task_id :: int
  task_name :: string
  priority :: string
  completed :: bool
  created_at :: string

text \<open>
  The object state (lines 7-8): \<open>self.tasks\<close> is a list, \<open>self.schedule\<close> a dictionary from
  slot strings to lists of task ids. Python dictionaries keep insertion order, so the
  dictionary is an association list in insertion order; a Python dictionary has each key
  once, which is the property \<open>is_dict\<close>. \<open>self.filename\<close> is a constant and is left out:
  the file is an argument of \<open>load_data\<close> and the result of \<open>save_data\<close>.
\<close>

type_synonym schedule_dict = "(string \<times> int list) list"

record todo =
  tasks :: "task list"
  schedule :: schedule_dict

definition is_dict :: "schedule_dict \<Rightarrow> bool" where
  "is_dict d = distinct (map fst d)"

text \<open>The state that \<open>__init__\<close> sets up before it calls \<open>load_data\<close> (lines 7-8).\<close>

definition init_todo :: todo where
  "init_todo = \<lparr>tasks = [], schedule = []\<rparr>"

text \<open>
  \<open>self.schedule[k]\<close> on a key that is present. The callers test the key first
  (lines 40, 65-66, 89), so the \<open>KeyError\<close> of a missing key cannot happen there; the model
  gives the empty list in that case.
\<close>

definition slot_ids :: "schedule_dict \<Rightarrow> string \<Rightarrow> int list" where
  "slot_ids d k = (case map_of d k of Some ids \<Rightarrow> ids | None \<Rightarrow> [])"

section \<open>Parsing and rendering a time of day\<close>

text \<open>
  \<open>datetime.strptime(time_str, "%H:%M")\<close> compiles the format to the regular expression
  \<open>(?P<H>2[0-3]|[0-1]\d|\d):(?P<M>[0-5]\d|\d)\<close>, matches it at the start of the string
  (\<open>re.match\<close>, alternatives tried from left to right with backtracking), raises
  \<open>ValueError\<close> when there is no match or when the match does not reach the end of the
  string ("unconverted data remains"), and converts the two groups with \<open>int\<close>.
  A bracketed class is a range of code points, so \<open>[0-3]\<close> holds ASCII digits only. On a
  \<open>str\<close> the class \<open>\d\<close> holds every character that the Unicode database of the
  interpreter gives a decimal digit value, and \<open>int\<close> reads such a character as that
  value: the Arabic-Indic digit three, U+0663, is matched by \<open>\d\<close> and read as 3.
\<close>

text \<open>
  The decimal digits of Unicode come in blocks of ten consecutive code points with the
  values 0 to 9. \<open>nd_blocks\<close> lists the first code point of every block of Unicode
  14.0, the database of CPython 3.11. The proofs below use three facts about the table
  (\<open>decimal_ascii\<close>, \<open>decimal_less\<close>, \<open>decimal_below_128\<close>): the ASCII digits are in it
  with their values, every value is below ten, and no other code point below 128 is in it.
\<close>

definition nd_blocks :: "nat list" where
  "nd_blocks =
    [48, 1632, 1776, 1984, 2406, 2534, 2662, 2790, 2918, 3046, 3174, 3302, 3430, 3558,
     3664, 3792, 3872, 4160, 4240, 6112, 6160, 6470, 6608, 6784, 6800, 6992, 7088,
     7232, 7248, 42528, 43216, 43264, 43472, 43504, 43600, 44016, 65296, 66720, 68912,
     69734, 69872, 69942, 70096, 70384, 70736, 70864, 71248, 71360, 71472, 71904,
     72016, 72784, 73040, 73120, 92768, 92864, 93008, 120782, 120792, 120802, 120812,
     120822, 123200, 123632, 125264, 130032]"

definition decimal :: "nat \<Rightarrow> nat option" where
  "decimal c = map_option (\<lambda>b. c - b) (find (\<lambda>b. b \<le> c \<and> c < b + 10) nd_blocks)"

definition in_range :: "char \<Rightarrow> char \<Rightarrow> nat \<Rightarrow> bool" where
  "in_range lo hi c = (of_char lo \<le> c \<and> c \<le> of_char hi)"

text \<open>The class \<open>\d\<close>.\<close>

definition is_digit :: "nat \<Rightarrow> bool" where
  "is_digit c = (decimal c \<noteq> None)"

text \<open>
  \<open>int(s)\<close> on a string of decimal digits. \<open>int\<close> raises \<open>ValueError\<close> on any other
  character; the groups of the regular expression hold digits only, so that case does
  not arise and the model gives such a character the value 0.
\<close>

definition digit_value :: "nat \<Rightarrow> nat" where
  "digit_value c = (case decimal c of Some v \<Rightarrow> v | None \<Rightarrow> 0)"

definition int_of_digits :: "py_str \<Rightarrow> nat" where
  "int_of_digits s = foldl (\<lambda>n c. 10 * n + digit_value c) 0 s"

text \<open>
  Each group gives its possible matches at the start of a string, in the order in which
  the regular expression tries them, each with the rest of the string.
\<close>

definition re_H :: "py_str \<Rightarrow> (py_str \<times> py_str) list" where
  "re_H s =
     (case s of a # b # r \<Rightarrow>
        (if a = of_char (CHR ''2'') \<and> in_range (CHR ''0'') (CHR ''3'') b then [([a, b], r)]
         else [])
      | _ \<Rightarrow> [])
     @ (case s of a # b # r \<Rightarrow>
        (if in_range (CHR ''0'') (CHR ''1'') a \<and> is_digit b then [([a, b], r)] else [])
      | _ \<Rightarrow> [])
     @ (case s of a # r \<Rightarrow> (if is_digit a then [([a], r)] else []) | _ \<Rightarrow> [])"

definition re_colon :: "py_str \<Rightarrow> py_str list" where
  "re_colon s =
     (case s of a # r \<Rightarrow> (if a = of_char (CHR '':'') then [r] else []) | _ \<Rightarrow> [])"

definition re_M :: "py_str \<Rightarrow> (py_str \<times> py_str) list" where
  "re_M s =
     (case s of a # b # r \<Rightarrow>
        (if in_range (CHR ''0'') (CHR ''5'') a \<and> is_digit b then [([a, b], r)] else [])
      | _ \<Rightarrow> [])
     @ (case s of a # r \<Rightarrow> (if is_digit a then [([a], r)] else []) | _ \<Rightarrow> [])"

text \<open>All matches of the whole expression, the one \<open>re.match\<close> returns first.\<close>

definition format_regex_match :: "py_str \<Rightarrow> (py_str \<times> py_str \<times> py_str) list" where
  "format_regex_match s =
     [(h, m, r2). (h, r0) \<leftarrow> re_H s, r1 \<leftarrow> re_colon r0, (m, r2) \<leftarrow> re_M r1]"

text \<open>\<open>None\<close> stands for the \<open>ValueError\<close>; the result is (hour, minute).\<close>

definition strptime_HM :: "py_str \<Rightarrow> (nat \<times> nat) option" where
  "strptime_HM s =
     (case format_regex_match s of
        [] \<Rightarrow> None
      | (h, m, rest) # _ \<Rightarrow>
          if rest \<noteq> [] then None else Some (int_of_digits h, int_of_digits m))"

text \<open>
  \<open>.time().strftime("%H:%M")\<close>: hour and minute, each as two ASCII digits, zero-padded.
\<close>

definition digit_char :: "nat \<Rightarrow> char" where
  "digit_char d = ''0123456789'' ! d"

definition two_digits :: "nat \<Rightarrow> string" where
  "two_digits n = [digit_char (n div 10), digit_char (n mod 10)]"

definition strftime_HM :: "nat \<times> nat \<Rightarrow> string" where
  "strftime_HM t = two_digits (fst t) @ '':'' @ two_digits (snd t)"

section \<open>The operations\<close>

text \<open>
  Every operation takes the state and returns its result with the new state. What an
  operation prints is not part of the state and is left out.
\<close>

text \<open>
  \<open>schedule_task\<close> (lines 58-83). The \<open>ValueError\<close> of \<open>strptime\<close> is caught and gives
  \<open>False\<close>; nothing was written before it is raised.
\<close>

definition schedule_task :: "todo \<Rightarrow> int \<Rightarrow> py_str \<Rightarrow> bool \<times> todo" where
  "schedule_task s tid time_str =
     (case strptime_HM time_str of
        None \<Rightarrow> (False, s)
      | Some t \<Rightarrow>
          let task_time = strftime_HM t;
              d1 = (if map_of (schedule s) task_time = None
                    then AList.update task_time [] (schedule s) else schedule s);
              d2 = (if tid \<notin> set (slot_ids d1 task_time)
                    then AList.update task_time (slot_ids d1 task_time @ [tid]) d1 else d1)
          in (True, s\<lparr>schedule := d2\<rparr>))"

text \<open>
  \<open>add_task\<close> (lines 12-29). \<open>now\<close> is the text of
  \<open>datetime.now().strftime("%Y-%m-%d %H:%M")\<close>. \<open>if scheduled_time:\<close> holds for a string
  that is not empty; the result of the nested \<open>schedule_task\<close> is dropped.
\<close>

definition add_task ::
  "todo \<Rightarrow> string \<Rightarrow> string \<Rightarrow> py_str option \<Rightarrow> string \<Rightarrow> int \<times> todo" where
  "add_task s name prio scheduled_time now =
     (let tid = int (length (tasks s)) + 1;
          new_task = \<lparr>task_id = tid, task_name = name, priority = prio,
                      completed = False, created_at = now\<rparr>;
          s1 = s\<lparr>tasks := tasks s @ [new_task]\<rparr>;
          s2 = (case scheduled_time of
                  None \<Rightarrow> s1
                | Some ts \<Rightarrow> if ts \<noteq> [] then snd (schedule_task s1 tid ts) else s1)
      in (tid, s2))"

text \<open>
  The loop of lines 39-43 and of lines 88-93: over a snapshot of the keys, a slot that
  lists the id loses its first occurrence (\<open>list.remove\<close>) and is deleted when that leaves
  it empty. The flag is \<open>task_found\<close> of \<open>unschedule_task\<close>; \<open>remove_task\<close> runs the same
  loop without the flag.
\<close>

fun purge_slots :: "int \<Rightarrow> string list \<Rightarrow> schedule_dict \<times> bool \<Rightarrow> schedule_dict \<times> bool" where
  "purge_slots tid [] acc = acc"
| "purge_slots tid (time_slot # ks) (d, found) =
     (if tid \<in> set (slot_ids d time_slot)
      then (let ids = remove1 tid (slot_ids d time_slot);
                d1 = (if ids = [] then AList.delete time_slot d
                      else AList.update time_slot ids d)
            in purge_slots tid ks (d1, True))
      else purge_slots tid ks (d, found))"

text \<open>
  \<open>remove_task\<close> (lines 31-46): the first task with the id is popped, then the schedule is
  purged of the id.
\<close>

fun pop_first :: "int \<Rightarrow> task list \<Rightarrow> task list option" where
  "pop_first tid [] = None"
| "pop_first tid (t # ts) =
     (if task_id t = tid then Some ts else map_option ((#) t) (pop_first tid ts))"

definition remove_task :: "todo \<Rightarrow> int \<Rightarrow> bool \<times> todo" where
  "remove_task s tid =
     (case pop_first tid (tasks s) of
        None \<Rightarrow> (False, s)
      | Some ts \<Rightarrow>
          (True, \<lparr>tasks = ts,
                  schedule = fst (purge_slots tid (map fst (schedule s)) (schedule s, False))\<rparr>))"

text \<open>\<open>mark_complete\<close> (lines 48-56): the first task with the id gets \<open>completed = True\<close>.\<close>

fun complete_first :: "int \<Rightarrow> task list \<Rightarrow> task list option" where
  "complete_first tid [] = None"
| "complete_first tid (t # ts) =
     (if task_id t = tid then Some (t\<lparr>completed := True\<rparr> # ts)
      else map_option ((#) t) (complete_first tid ts))"

definition mark_complete :: "todo \<Rightarrow> int \<Rightarrow> bool \<times> todo" where
  "mark_complete s tid =
     (case complete_first tid (tasks s) of
        None \<Rightarrow> (False, s)
      | Some ts \<Rightarrow> (True, s\<lparr>tasks := ts\<rparr>))"

text \<open>\<open>unschedule_task\<close> (lines 85-106).\<close>

definition unschedule_task :: "todo \<Rightarrow> int \<Rightarrow> bool \<times> todo" where
  "unschedule_task s tid =
     (let r = purge_slots tid (map fst (schedule s)) (schedule s, False)
      in (snd r, s\<lparr>schedule := fst r\<rparr>))"

section \<open>Sequences of calls\<close>

text \<open>
  The five state-changing operations as calls, and a run of calls from a state. The
  arguments of \<open>Add_task\<close> are those of \<open>add_task\<close>.
\<close>

datatype call =
  Add_task string string "py_str option" string
| Remove_task int
| Mark_complete int
| Schedule_task int py_str
| Unschedule_task int

fun exec_call :: "todo \<Rightarrow> call \<Rightarrow> todo" where
  "exec_call s (Add_task name prio st now) = snd (add_task s name prio st now)"
| "exec_call s (Remove_task tid) = snd (remove_task s tid)"
| "exec_call s (Mark_complete tid) = snd (mark_complete s tid)"
| "exec_call s (Schedule_task tid ts) = snd (schedule_task s tid ts)"
| "exec_call s (Unschedule_task tid) = snd (unschedule_task s tid)"

definition run_calls :: "todo \<Rightarrow> call list \<Rightarrow> todo" where
  "run_calls s cs = foldl exec_call s cs"

definition task_ids :: "todo \<Rightarrow> int list" where
  "task_ids s = map task_id (tasks s)"

definition scheduled_ids :: "schedule_dict \<Rightarrow> int list" where
  "scheduled_ids d = concat (map snd d)"

text \<open>
  A run in which every \<open>Schedule_task\<close> call names an id that some task of the store has
  at the time of the call.
\<close>

fun schedules_live :: "todo \<Rightarrow> call list \<Rightarrow> bool" where
  "schedules_live s [] = True"
| "schedules_live s (Schedule_task tid ts # cs) =
     (tid \<in> set (task_ids s) \<and> schedules_live (exec_call s (Schedule_task tid ts)) cs)"
| "schedules_live s (c # cs) = schedules_live (exec_call s c) cs"

text \<open>The slots of a schedule that list a given id.\<close>

definition slots_of :: "schedule_dict \<Rightarrow> int \<Rightarrow> string list" where
  "slots_of d tid = map fst (filter (\<lambda>e. tid \<in> set (snd e)) d)"

text \<open>
  Properties of a schedule: no slot is empty, and no slot lists an id twice.
\<close>

definition no_empty_slot :: "schedule_dict \<Rightarrow> bool" where
  "no_empty_slot d = list_all (\<lambda>e. snd e \<noteq> []) d"

definition slots_distinct :: "schedule_dict \<Rightarrow> bool" where
  "slots_distinct d = list_all (\<lambda>e. distinct (snd e)) d"

text \<open>
  What the purge of an id is meant to leave: every slot without the id, and without the
  slots that have no id left.
\<close>

definition without_id :: "int \<Rightarrow> schedule_dict \<Rightarrow> schedule_dict" where
  "without_id tid d =
     filter (\<lambda>e. snd e \<noteq> []) (map (\<lambda>e. (fst e, removeAll tid (snd e))) d)"

text \<open>The task list without its first task of a given id.\<close>

definition without_first :: "int \<Rightarrow> task list \<Rightarrow> task list" where
  "without_first tid ts =
     takeWhile (\<lambda>t. task_id t \<noteq> tid) ts @ drop 1 (dropWhile (\<lambda>t. task_id t \<noteq> tid) ts)"

text \<open>
  What the loop \<open>purge_slots\<close> computes on a dictionary, slot by slot: a slot that lists
  the id loses the first occurrence and is dropped when nothing is left; every other slot
  stays as it is.
\<close>

fun purge_each :: "int \<Rightarrow> schedule_dict \<Rightarrow> schedule_dict" where
  "purge_each tid [] = []"
| "purge_each tid (e # d) =
     (if tid \<in> set (snd e)
      then (if remove1 tid (snd e) = [] then purge_each tid d
            else (fst e, remove1 tid (snd e)) # purge_each tid d)
      else e # purge_each tid d)"

text \<open>
  A well-formed schedule: a dictionary without an empty slot and without an id twice in
  a slot.
\<close>

definition well_formed :: "schedule_dict \<Rightarrow> bool" where
  "well_formed d = (is_dict d \<and> no_empty_slot d \<and> slots_distinct d)"

text \<open>Every id in the schedule is the id of a task in the store.\<close>

definition refs_live :: "todo \<Rightarrow> bool" where
  "refs_live s = (set (scheduled_ids (schedule s)) \<subseteq> set (task_ids s))"

section \<open>The shapes of time strings\<close>

text \<open>
  A string is split at its first colon into an hour field and a minute field.
  The shapes the specification speaks of, written from its words and not from the code,
  are over ASCII digits: in the lenient shape each field is one or two digits, the hour
  below 24 and the minute below 60; the zero-padded shape has two digits in each field.
\<close>

definition hm_fields :: "py_str \<Rightarrow> py_str \<times> py_str" where
  "hm_fields t =
     (takeWhile (\<lambda>c. c \<noteq> of_char (CHR '':'')) t,
      drop 1 (dropWhile (\<lambda>c. c \<noteq> of_char (CHR '':'')) t))"

definition ascii_digit :: "nat \<Rightarrow> bool" where
  "ascii_digit c = in_range (CHR ''0'') (CHR ''9'') c"

definition digits12 :: "py_str \<Rightarrow> bool" where
  "digits12 xs = (xs \<noteq> [] \<and> length xs \<le> 2 \<and> list_all ascii_digit xs)"

definition lenient_HM :: "py_str \<Rightarrow> bool" where
  "lenient_HM t =
     (of_char (CHR '':'') \<in> set t \<and> digits12 (fst (hm_fields t))
      \<and> digits12 (snd (hm_fields t))
      \<and> int_of_digits (fst (hm_fields t)) < 24 \<and> int_of_digits (snd (hm_fields t)) < 60)"

definition zero_padded_HM :: "py_str \<Rightarrow> bool" where
  "zero_padded_HM t =
     (lenient_HM t \<and> length (fst (hm_fields t)) = 2 \<and> length (snd (hm_fields t)) = 2)"

text \<open>
  The strings that are accepted, over all of Unicode. The hour field is a decimal digit,
  or \<open>2\<close> and one of \<open>0\<close> to \<open>3\<close>, or \<open>0\<close> or \<open>1\<close> and a decimal digit; the minute field is
  a decimal digit, or one of \<open>0\<close> to \<open>5\<close> and a decimal digit. The characters named are
  ASCII; a decimal digit is any character of the class \<open>\d\<close>.
\<close>

definition hour_field :: "py_str \<Rightarrow> bool" where
  "hour_field xs =
     (case xs of
        [d] \<Rightarrow> is_digit d
      | [a, b] \<Rightarrow> (a = of_char (CHR ''2'') \<and> in_range (CHR ''0'') (CHR ''3'') b)
                   \<or> (in_range (CHR ''0'') (CHR ''1'') a \<and> is_digit b)
      | _ \<Rightarrow> False)"

definition minute_field :: "py_str \<Rightarrow> bool" where
  "minute_field xs =
     (case xs of
        [d] \<Rightarrow> is_digit d
      | [a, b] \<Rightarrow> in_range (CHR ''0'') (CHR ''5'') a \<and> is_digit b
      | _ \<Rightarrow> False)"

definition accepted_HM :: "py_str \<Rightarrow> bool" where
  "accepted_HM t =
     (of_char (CHR '':'') \<in> set t \<and> hour_field (fst (hm_fields t))
      \<and> minute_field (snd (hm_fields t)))"

text \<open>The zero-padded rendering of the time that an accepted string denotes.\<close>

definition canonical_HM :: "py_str \<Rightarrow> string" where
  "canonical_HM t =
     strftime_HM (int_of_digits (fst (hm_fields t)), int_of_digits (snd (hm_fields t)))"

section \<open>The menu's treatment of the priority\<close>

text \<open>
  Lines 200-202 of \<open>main\<close>: the lower-cased input is replaced by \<open>"medium"\<close> unless it is
  one of the three priorities. The argument is the input after \<open>.lower()\<close>.
\<close>

definition menu_priority :: "string \<Rightarrow> string" where
  "menu_priority p = (if p \<notin> set [''high'', ''medium'', ''low''] then ''medium'' else p)"

section \<open>Saving and loading\<close>

text \<open>
  The values \<open>json.load\<close> returns and \<open>json.dump\<close> accepts: \<open>None\<close>, booleans, integers,
  strings, lists, and dictionaries with string keys in insertion order. Floating-point
  numbers are left out.
\<close>

datatype json =
  JNull
| JBool bool
| JInt int
| JStr string
| JArr "json list"
| JObj "(string \<times> json) list"

text \<open>
  The file \<open>todo_schedule.json\<close> as \<open>load_data\<close> sees it: absent
  (\<open>os.path.exists\<close> is false), present with a text on which \<open>json.load\<close> raises
  \<open>JSONDecodeError\<close>, or present with a text that \<open>json.load\<close> decodes to a value.
  \<open>json.dump\<close> writes a text that \<open>json.load\<close> decodes to the value it was given; that
  property of the \<open>json\<close> module is taken as given, so \<open>save_data\<close> results in a file
  \<open>Contents\<close> of the dumped value.
\<close>

datatype stored_file = Missing | Undecodable | Contents json

text \<open>
  In Python the tasks and the schedule are themselves such values; the typed state of
  this model is converted to them and back.
\<close>

definition task_to_json :: "task \<Rightarrow> json" where
  "task_to_json t =
     JObj [(''id'', JInt (task_id t)), (''task'', JStr (task_name t)),
           (''priority'', JStr (priority t)), (''completed'', JBool (completed t)),
           (''created_at'', JStr (created_at t))]"

definition schedule_to_json :: "schedule_dict \<Rightarrow> json" where
  "schedule_to_json d = JObj (map (\<lambda>e. (fst e, JArr (map JInt (snd e)))) d)"

text \<open>\<open>save_data\<close> (lines 150-158).\<close>

definition save_data :: "todo \<Rightarrow> stored_file" where
  "save_data s =
     Contents (JObj [(''tasks'', JArr (map task_to_json (tasks s))),
                     (''schedule'', schedule_to_json (schedule s))])"

fun json_int :: "json \<Rightarrow> int option" where
  "json_int (JInt i) = Some i"
| "json_int _ = None"

fun json_str :: "json \<Rightarrow> string option" where
  "json_str (JStr x) = Some x"
| "json_str _ = None"

fun json_bool :: "json \<Rightarrow> bool option" where
  "json_bool (JBool b) = Some b"
| "json_bool _ = None"

definition field :: "(string \<times> json) list \<Rightarrow> string \<Rightarrow> (json \<Rightarrow> 'a option) \<Rightarrow> 'a option" where
  "field kv k conv = Option.bind (map_of kv k) conv"

fun task_of_json :: "json \<Rightarrow> task option" where
  "task_of_json (JObj kv) =
     (case (field kv ''id'' json_int, field kv ''task'' json_str,
            field kv ''priority'' json_str, field kv ''completed'' json_bool,
            field kv ''created_at'' json_str) of
        (Some i, Some n, Some p, Some c, Some a) \<Rightarrow>
          if length kv = 5
          then Some \<lparr>task_id = i, task_name = n, priority = p, completed = c, created_at = a\<rparr>
          else None
      | _ \<Rightarrow> None)"
| "task_of_json _ = None"

fun tasks_of_json :: "json \<Rightarrow> task list option" where
  "tasks_of_json (JArr js) = those (map task_of_json js)"
| "tasks_of_json _ = None"

fun ids_of_json :: "json \<Rightarrow> int list option" where
  "ids_of_json (JArr js) = those (map json_int js)"
| "ids_of_json _ = None"

fun schedule_of_json :: "json \<Rightarrow> schedule_dict option" where
  "schedule_of_json (JObj kv) =
     those (map (\<lambda>e. map_option (Pair (fst e)) (ids_of_json (snd e))) kv)"
| "schedule_of_json _ = None"

text \<open>\<open>dict.get(key, default)\<close>.\<close>

definition dict_get :: "(string \<times> json) list \<Rightarrow> string \<Rightarrow> json \<Rightarrow> json" where
  "dict_get kv k dflt = (case map_of kv k of Some v \<Rightarrow> v | None \<Rightarrow> dflt)"

text \<open>
  \<open>load_data\<close> (lines 160-172). An absent file leaves the state as it is. A
  \<open>JSONDecodeError\<close> is caught and empties the state. A decoded value that is not a
  dictionary has no method \<open>get\<close>: line 166 raises \<open>AttributeError\<close>, which the
  \<open>except\<close> clause of line 169 does not catch. The code stores the two fields of a
  dictionary as they are; when they are not a task list and a schedule of the data model,
  the loaded state is outside this typed model, which is the result \<open>Outside_model\<close>.
\<close>

datatype py_exception = AttributeError

datatype load_result = Raised py_exception | Loaded todo | Outside_model

definition load_data :: "stored_file \<Rightarrow> todo \<Rightarrow> load_result" where
  "load_data f s =
     (case f of
        Missing \<Rightarrow> Loaded s
      | Undecodable \<Rightarrow> Loaded \<lparr>tasks = [], schedule = []\<rparr>
      | Contents j \<Rightarrow>
          (case j of
             JObj kv \<Rightarrow>
               (case (tasks_of_json (dict_get kv ''tasks'' (JArr [])),
                      schedule_of_json (dict_get kv ''schedule'' (JObj []))) of
                  (Some ts, Some d) \<Rightarrow> Loaded \<lparr>tasks = ts, schedule = d\<rparr>
                | _ \<Rightarrow> Outside_model)
           | _ \<Rightarrow> Raised AttributeError))"

text \<open>The constructor (lines 6-10): the empty state, then \<open>load_data\<close>.\<close>

definition new_todo :: "stored_file \<Rightarrow> load_result" where
  "new_todo f = load_data f init_todo"

section \<open>Evaluation\<close>

lemmas parse_defs = strptime_HM_def format_regex_match_def re_H_def re_M_def re_colon_def
  in_range_def is_digit_def int_of_digits_def digit_value_def strftime_HM_def two_digits_def
  digit_char_def decimal_def nd_blocks_def str_def

lemmas shape_eval = lenient_HM_def zero_padded_HM_def accepted_HM_def canonical_HM_def
  hm_fields_def hour_field_def minute_field_def digits12_def ascii_digit_def

lemmas op_defs = schedule_task_def add_task_def remove_task_def mark_complete_def
  unschedule_task_def slot_ids_def init_todo_def run_calls_def

section \<open>A scenario of the specification\<close>

lemma scenario_buy_milk:
  "add_task init_todo ''Buy milk'' ''high'' None ''2024-01-01 10:00''
     = (1, \<lparr>tasks = [\<lparr>task_id = 1, task_name = ''Buy milk'', priority = ''high'',
                         completed = False, created_at = ''2024-01-01 10:00''\<rparr>],
             schedule = []\<rparr>)"
  "schedule_task init_todo 1 (str ''09:30'') = (True, \<lparr>tasks = [], schedule = [(''09:30'', [1])]\<rparr>)"
  "remove_task \<lparr>tasks = [\<lparr>task_id = 1, task_name = ''Buy milk'', priority = ''high'',
                           completed = False, created_at = ''2024-01-01 10:00''\<rparr>],
                schedule = [(''09:30'', [1])]\<rparr> 1
     = (True, \<lparr>tasks = [], schedule = []\<rparr>)"
  by (simp_all add: parse_defs op_defs)

section \<open>Facts about the operations on the task list\<close>

lemma schedule_task_tasks: "tasks (snd (schedule_task s tid ts)) = tasks s"
  by (simp add: schedule_task_def Let_def split: option.splits)

lemma add_task_tasks:
  "tasks (snd (add_task s name prio st now)) =
     tasks s @ [\<lparr>task_id = int (length (tasks s)) + 1, task_name = name, priority = prio,
                 completed = False, created_at = now\<rparr>]"
  by (simp add: add_task_def Let_def schedule_task_tasks split: option.splits)

lemma complete_first_None: "(complete_first tid ts = None) = (tid \<notin> task_id ` set ts)"
  by (induction ts) auto

lemma complete_first_split:
  "complete_first tid ts = Some ts' \<Longrightarrow>
     \<exists>pre t post. ts = pre @ t # post \<and> task_id t = tid \<and> tid \<notin> task_id ` set pre
        \<and> ts' = pre @ t\<lparr>completed := True\<rparr> # post"
proof (induction ts arbitrary: ts')
  case Nil
  then show ?case by simp
next
  case (Cons u us)
  show ?case
  proof (cases "task_id u = tid")
    case True
    with Cons.prems have "u # us = [] @ u # us \<and> task_id u = tid \<and> tid \<notin> task_id ` set []
        \<and> ts' = [] @ u\<lparr>completed := True\<rparr> # us"
      by simp
    then show ?thesis by blast
  next
    case False
    with Cons.prems obtain vs where vs: "complete_first tid us = Some vs" "ts' = u # vs"
      by auto
    from Cons.IH [OF vs(1)] obtain pre t post where
      "us = pre @ t # post" "task_id t = tid" "tid \<notin> task_id ` set pre"
      "vs = pre @ t\<lparr>completed := True\<rparr> # post"
      by blast
    with False vs(2) have "u # us = (u # pre) @ t # post \<and> task_id t = tid
        \<and> tid \<notin> task_id ` set (u # pre) \<and> ts' = (u # pre) @ t\<lparr>completed := True\<rparr> # post"
      by auto
    then show ?thesis by blast
  qed
qed

lemma complete_first_idem:
  "complete_first tid ts = Some ts' \<Longrightarrow> complete_first tid ts' = Some ts'"
  by (induction ts arbitrary: ts') (auto split: if_splits)

section \<open>Facts about parsing and rendering\<close>

lemma decimal_less: "decimal c = Some v \<Longrightarrow> v < 10"
  by (auto simp: decimal_def find_Some_iff)

lemma decimal_ascii: "ascii_digit c \<Longrightarrow> decimal c = Some (c - 48)"
  by (simp add: decimal_def nd_blocks_def ascii_digit_def in_range_def)

lemma decimal_below_128:
  assumes c: "c < 128" and d: "decimal c = Some v"
  shows "ascii_digit c"
proof -
  from d obtain b where b: "find (\<lambda>b. b \<le> c \<and> c < b + 10) nd_blocks = Some b"
    by (auto simp: decimal_def)
  then have "b \<in> set nd_blocks" "b \<le> c" "c < b + 10"
    by (auto simp: find_Some_iff)
  moreover have "list_all (\<lambda>b. b = 48 \<or> 128 \<le> b) nd_blocks"
    by (simp add: nd_blocks_def)
  ultimately have "b = 48" using c
    by (auto simp: list_all_iff)
  with \<open>b \<le> c\<close> \<open>c < b + 10\<close> show ?thesis
    by (simp add: ascii_digit_def in_range_def)
qed

lemma colon_not_digit: "\<not> is_digit 58"
  by (simp add: is_digit_def decimal_def nd_blocks_def)

lemma is_digit_ascii: "ascii_digit c \<Longrightarrow> is_digit c"
  by (simp add: is_digit_def decimal_ascii)

lemmas shape_defs = strptime_HM_def format_regex_match_def re_H_def re_colon_def re_M_def
  accepted_HM_def hm_fields_def hour_field_def minute_field_def in_range_def
  int_of_digits_def

text \<open>
  The parse succeeds exactly on the accepted strings, with the values of the two fields
  as its result. The regular expression looks at five characters at most, so the proof
  goes by the length of the string.
\<close>

lemma strptime_accepted:
  "strptime_HM t =
     (if accepted_HM t
      then Some (int_of_digits (fst (hm_fields t)), int_of_digits (snd (hm_fields t)))
      else None)"
proof -
  note [simp] = colon_not_digit
  have nd [simp]: "is_digit a \<Longrightarrow> a \<noteq> 58" for a
    using colon_not_digit by auto
  consider "t = []" | a where "t = [a]" | a b where "t = [a, b]"
    | a b c where "t = [a, b, c]" | a b c d where "t = [a, b, c, d]"
    | a b c d e where "t = [a, b, c, d, e]" | a b c d e f r where "t = a # b # c # d # e # f # r"
    by (metis list.exhaust)
  then show ?thesis
  proof cases
    case 1
    then show ?thesis by (simp add: shape_defs)
  next
    case 2
    then show ?thesis by (auto simp add: shape_defs)
  next
    case 3
    then show ?thesis by (auto simp add: shape_defs)
  next
    case 4
    then show ?thesis by (auto simp add: shape_defs)
  next
    case 5
    then show ?thesis by (auto simp add: shape_defs)
  next
    case 6
    then show ?thesis by (auto simp add: shape_defs)
  next
    case 7
    then show ?thesis by (auto simp add: shape_defs)
  qed
qed

lemma digit_value_ascii: "ascii_digit c \<Longrightarrow> digit_value c = c - 48"
  by (simp add: digit_value_def decimal_ascii)

lemma digit_value_less: "digit_value c < 10"
  by (cases "decimal c") (simp_all add: digit_value_def decimal_less)

lemma ascii_digit_iff: "ascii_digit c = (48 \<le> c \<and> c \<le> 57)"
  by (simp add: ascii_digit_def in_range_def)

lemma short_list:
  obtains "xs = []" | a where "xs = [a]" | a b where "xs = [a, b]"
    | a b c r where "xs = a # b # c # r"
  by (metis list.exhaust)

lemma hour_field_value: "hour_field xs \<Longrightarrow> int_of_digits xs < 24"
proof (cases xs rule: short_list)
  case (2 a)
  then show ?thesis using digit_value_less [of a] by (simp add: int_of_digits_def)
next
  case (3 a b)
  assume "hour_field xs"
  with 3 digit_value_less [of b] show ?thesis
    by (auto simp: hour_field_def int_of_digits_def in_range_def digit_value_ascii ascii_digit_iff)
qed (simp_all add: hour_field_def)

lemma minute_field_value: "minute_field xs \<Longrightarrow> int_of_digits xs < 60"
proof (cases xs rule: short_list)
  case (2 a)
  then show ?thesis using digit_value_less [of a] by (simp add: int_of_digits_def)
next
  case (3 a b)
  assume "minute_field xs"
  with 3 digit_value_less [of b] show ?thesis
    by (auto simp: minute_field_def int_of_digits_def in_range_def digit_value_ascii ascii_digit_iff)
qed (simp_all add: minute_field_def)

lemma hour_field_ascii: "digits12 xs \<Longrightarrow> int_of_digits xs < 24 \<Longrightarrow> hour_field xs"
  by (cases xs rule: short_list)
    (auto simp: digits12_def hour_field_def int_of_digits_def in_range_def digit_value_ascii
      ascii_digit_iff is_digit_ascii)

lemma minute_field_ascii: "digits12 xs \<Longrightarrow> int_of_digits xs < 60 \<Longrightarrow> minute_field xs"
  by (cases xs rule: short_list)
    (auto simp: digits12_def minute_field_def int_of_digits_def in_range_def digit_value_ascii
      ascii_digit_iff is_digit_ascii)

lemma is_digit_below_128: "c < 128 \<Longrightarrow> is_digit c \<Longrightarrow> ascii_digit c"
  by (auto simp: is_digit_def dest: decimal_below_128)

lemma hour_field_digits12: "list_all (\<lambda>c. c < 128) xs \<Longrightarrow> hour_field xs \<Longrightarrow> digits12 xs"
  by (cases xs rule: short_list)
    (auto simp: digits12_def hour_field_def in_range_def ascii_digit_iff
      dest: is_digit_below_128)

lemma minute_field_digits12: "list_all (\<lambda>c. c < 128) xs \<Longrightarrow> minute_field xs \<Longrightarrow> digits12 xs"
  by (cases xs rule: short_list)
    (auto simp: digits12_def minute_field_def in_range_def ascii_digit_iff
      dest: is_digit_below_128)

lemma lenient_accepted: "lenient_HM t \<Longrightarrow> accepted_HM t"
  by (simp add: lenient_HM_def accepted_HM_def hour_field_ascii minute_field_ascii)

lemma fields_subset:
  "set (fst (hm_fields t)) \<subseteq> set t" "set (snd (hm_fields t)) \<subseteq> set t"
proof -
  show "set (fst (hm_fields t)) \<subseteq> set t"
    by (auto simp: hm_fields_def dest: set_takeWhileD)
  have "set (drop 1 (dropWhile (\<lambda>c. c \<noteq> of_char (CHR '':'')) t))
      \<subseteq> set (dropWhile (\<lambda>c. c \<noteq> of_char (CHR '':'')) t)"
    by (rule set_drop_subset)
  also have "\<dots> \<subseteq> set t"
    by (auto dest: set_dropWhileD)
  finally show "set (snd (hm_fields t)) \<subseteq> set t"
    by (simp add: hm_fields_def)
qed

lemma accepted_ascii_lenient:
  assumes a: "list_all (\<lambda>c. c < 128) t" and acc: "accepted_HM t"
  shows "lenient_HM t"
proof -
  from a fields_subset [of t]
  have "list_all (\<lambda>c. c < 128) (fst (hm_fields t))" "list_all (\<lambda>c. c < 128) (snd (hm_fields t))"
    by (auto simp: list_all_iff)
  with acc show ?thesis
    by (simp add: lenient_HM_def accepted_HM_def hour_field_digits12 minute_field_digits12
        hour_field_value minute_field_value)
qed

lemma digit_char_code: "d < 10 \<Longrightarrow> of_char (digit_char d) = 48 + d"
proof -
  assume "d < 10"
  then have "d \<in> {0, 1, 2, 3, 4, 5, 6, 7, 8, 9}"
    by (simp only: insert_iff empty_iff) arith
  then show ?thesis
    by (auto simp: digit_char_def)
qed

lemma str_two_digits: "n < 100 \<Longrightarrow> str (two_digits n) = [48 + n div 10, 48 + n mod 10]"
  by (simp add: str_def two_digits_def digit_char_code)

lemma str_strftime:
  "h < 100 \<Longrightarrow> m < 100 \<Longrightarrow>
     str (strftime_HM (h, m)) = [48 + h div 10, 48 + h mod 10, 58, 48 + m div 10, 48 + m mod 10]"
  using str_two_digits [of h] str_two_digits [of m]
  by (simp add: strftime_HM_def str_def)

lemma fields_join:
  assumes "of_char (CHR '':'') \<in> set t"
  shows "fst (hm_fields t) @ [of_char (CHR '':'')] @ snd (hm_fields t) = t"
proof -
  let ?P = "\<lambda>c. c \<noteq> (of_char (CHR '':'') :: nat)"
  from assms have "dropWhile ?P t \<noteq> []"
    by (simp add: dropWhile_eq_Nil_conv)
  then obtain r where r: "dropWhile ?P t = of_char (CHR '':'') # r"
    using hd_dropWhile [of ?P t] by (cases "dropWhile ?P t") auto
  have "takeWhile ?P t @ dropWhile ?P t = t"
    by simp
  with r show ?thesis
    by (simp add: hm_fields_def)
qed

lemma two_chars: "length xs = 2 \<Longrightarrow> \<exists>a b. xs = [a, b]"
  by (cases xs; cases "tl xs") auto

lemma two_digits_render:
  assumes "ascii_digit a" "ascii_digit b"
  shows "str (two_digits (int_of_digits [a, b])) = [a, b]"
proof -
  define x y where "x = a - 48" and "y = b - 48"
  with assms have xy: "a = 48 + x" "b = 48 + y" "x < 10" "y < 10"
    by (auto simp: ascii_digit_iff)
  from assms have "int_of_digits [a, b] = 10 * x + y"
    by (simp add: int_of_digits_def digit_value_ascii x_def y_def)
  with xy show ?thesis
    by (simp add: str_two_digits)
qed

lemma zero_padded_canonical:
  assumes z: "zero_padded_HM t"
  shows "str (canonical_HM t) = t"
proof -
  from z obtain a b c d where f: "fst (hm_fields t) = [a, b]" "snd (hm_fields t) = [c, d]"
    using two_chars unfolding zero_padded_HM_def by metis
  from z f have dg: "ascii_digit a" "ascii_digit b" "ascii_digit c" "ascii_digit d"
    by (simp_all add: zero_padded_HM_def lenient_HM_def digits12_def)
  have "str (canonical_HM t)
      = str (two_digits (int_of_digits [a, b])) @ [58] @ str (two_digits (int_of_digits [c, d]))"
    by (simp add: canonical_HM_def f strftime_HM_def str_def)
  with dg have "str (canonical_HM t) = [a, b, 58, c, d]"
    by (simp add: two_digits_render)
  with f fields_join [of t] z show ?thesis
    by (simp add: zero_padded_HM_def lenient_HM_def)
qed

lemma canonical_zero_padded:
  assumes "accepted_HM t"
  shows "zero_padded_HM (str (canonical_HM t))"
proof -
  define h where "h = int_of_digits (fst (hm_fields t))"
  define m where "m = int_of_digits (snd (hm_fields t))"
  from assms have b: "h < 24" "m < 60"
    by (simp_all add: h_def m_def accepted_HM_def hour_field_value minute_field_value)
  then have s: "str (canonical_HM t) = [48 + h div 10, 48 + h mod 10, 58, 48 + m div 10, 48 + m mod 10]"
    by (simp add: canonical_HM_def h_def [symmetric] m_def [symmetric] str_strftime)
  have d: "ascii_digit (48 + h div 10)" "ascii_digit (48 + h mod 10)"
    "ascii_digit (48 + m div 10)" "ascii_digit (48 + m mod 10)"
    using b by (simp_all add: ascii_digit_iff)
  have "48 + h div 10 \<noteq> 58" "48 + h mod 10 \<noteq> 58" using b by simp_all
  with d b show ?thesis
    by (simp add: s zero_padded_HM_def lenient_HM_def hm_fields_def digits12_def
        int_of_digits_def digit_value_ascii)
qed

lemma schedule_task_accepts:
  "strptime_HM t = Some tm \<Longrightarrow>
     fst (schedule_task s tid t)
     \<and> tid \<in> set (slot_ids (schedule (snd (schedule_task s tid t))) (strftime_HM tm))"
  by (auto simp: schedule_task_def Let_def slot_ids_def update_conv' split: option.splits)

section \<open>Facts about the purge of an id\<close>

lemma map_of_mid:
  "k \<notin> fst ` set pre \<Longrightarrow> map_of (pre @ (k, v) # post) k = Some v"
  by (induction pre) auto

lemma update_mid:
  "k \<notin> fst ` set pre \<Longrightarrow> AList.update k w (pre @ (k, v) # post) = pre @ (k, w) # post"
  by (induction pre) auto

lemma delete_mid:
  "k \<notin> fst ` set pre \<Longrightarrow> k \<notin> fst ` set post \<Longrightarrow>
     AList.delete k (pre @ (k, v) # post) = pre @ post"
  by (induction pre) auto

lemma purge_slots_eq:
  "distinct (map fst (pre @ post)) \<Longrightarrow>
     purge_slots tid (map fst post) (pre @ post, f)
       = (pre @ purge_each tid post, f \<or> tid \<in> set (scheduled_ids post))"
proof (induction post arbitrary: pre f)
  case Nil
  then show ?case by (simp add: scheduled_ids_def)
next
  case (Cons e post)
  obtain k v where e: "e = (k, v)" by (cases e)
  from Cons.prems e have k: "k \<notin> fst ` set pre" "k \<notin> fst ` set post"
    by auto
  have look: "slot_ids (pre @ (k, v) # post) k = v"
    by (simp only: slot_ids_def map_of_mid [OF k(1)] option.case)
  show ?case
  proof (cases "tid \<in> set v")
    case False
    from Cons.prems e have "distinct (map fst ((pre @ [(k, v)]) @ post))" by simp
    from Cons.IH [OF this, of f] False e look show ?thesis
      by (simp add: scheduled_ids_def)
  next
    case True
    show ?thesis
    proof (cases "remove1 tid v = []")
      case True
      from Cons.prems e have "distinct (map fst (pre @ post))" by simp
      from Cons.IH [OF this, of True] True \<open>tid \<in> set v\<close> e look k show ?thesis
        by (simp add: scheduled_ids_def delete_mid)
    next
      case False
      from Cons.prems e have "distinct (map fst ((pre @ [(k, remove1 tid v)]) @ post))" by simp
      from Cons.IH [OF this, of True] False \<open>tid \<in> set v\<close> e look k show ?thesis
        by (simp add: scheduled_ids_def update_mid)
    qed
  qed
qed

lemma purge_slots_dict:
  "is_dict d \<Longrightarrow> purge_slots tid (map fst d) (d, False)
     = (purge_each tid d, tid \<in> set (scheduled_ids d))"
  using purge_slots_eq [of "[]" d tid False] by (simp add: is_dict_def)

lemma purge_each_without_id:
  "no_empty_slot d \<Longrightarrow> slots_distinct d \<Longrightarrow> purge_each tid d = without_id tid d"
  by (induction d)
    (auto simp: no_empty_slot_def slots_distinct_def without_id_def distinct_remove1_removeAll)

lemma without_id_free: "tid \<notin> set (scheduled_ids (without_id tid d))"
  by (induction d) (auto simp: without_id_def scheduled_ids_def)

lemma without_id_ids: "set (scheduled_ids (without_id tid d)) \<subseteq> set (scheduled_ids d) - {tid}"
  by (induction d) (auto simp: without_id_def scheduled_ids_def)

lemma without_id_well_formed:
  assumes "well_formed d"
  shows "well_formed (without_id tid d)"
proof -
  from assms have "distinct (map fst (map (\<lambda>e. (fst e, removeAll tid (snd e))) d))"
    by (simp add: well_formed_def is_dict_def o_def)
  then have "is_dict (without_id tid d)"
    unfolding is_dict_def without_id_def by (rule distinct_map_filter)
  moreover have "no_empty_slot (without_id tid d)"
    by (simp add: no_empty_slot_def without_id_def list_all_iff)
  moreover from assms have "slots_distinct (without_id tid d)"
    by (auto simp: well_formed_def slots_distinct_def without_id_def list_all_iff
        distinct_removeAll)
  ultimately show ?thesis
    by (simp add: well_formed_def)
qed

lemma pop_first_eq:
  "pop_first tid ts = (if tid \<in> task_id ` set ts then Some (without_first tid ts) else None)"
  by (induction ts) (auto simp: without_first_def)

section \<open>Facts about the schedule along a run of calls\<close>

lemma update_absent: "map_of d k = None \<Longrightarrow> AList.update k v d = d @ [(k, v)]"
  by (induction d) (auto split: if_splits)

lemma update_appended:
  "map_of d k = None \<Longrightarrow> AList.update k v (d @ [(k, w)]) = d @ [(k, v)]"
  by (induction d) (auto split: if_splits)

lemma schedule_task_schedule:
  "strptime_HM t = Some tm \<Longrightarrow>
     schedule (snd (schedule_task s tid t)) =
       (case map_of (schedule s) (strftime_HM tm) of
          None \<Rightarrow> schedule s @ [(strftime_HM tm, [tid])]
        | Some ids \<Rightarrow>
            if tid \<in> set ids then schedule s
            else AList.update (strftime_HM tm) (ids @ [tid]) (schedule s))"
  by (auto simp: schedule_task_def Let_def slot_ids_def update_conv' update_absent
      update_appended split: option.splits)

lemma schedule_task_unparsed: "strptime_HM t = None \<Longrightarrow> snd (schedule_task s tid t) = s"
  by (simp add: schedule_task_def)

lemma list_all_update:
  "P (k, v) \<Longrightarrow> list_all P d \<Longrightarrow> list_all P (AList.update k v d)"
  by (induction d) auto

lemma scheduled_ids_update:
  "set (scheduled_ids (AList.update k v d)) \<subseteq> set v \<union> set (scheduled_ids d)"
  by (induction d) (auto simp: scheduled_ids_def)

lemma map_of_slot: "map_of d k = Some ids \<Longrightarrow> set ids \<subseteq> set (scheduled_ids d)"
  by (induction d) (auto simp: scheduled_ids_def split: if_splits)

lemma schedule_task_well_formed:
  assumes "well_formed (schedule s)"
  shows "well_formed (schedule (snd (schedule_task s tid t)))"
proof (cases "strptime_HM t")
  case None
  with assms show ?thesis by (simp add: schedule_task_unparsed)
next
  case (Some tm)
  show ?thesis
  proof (cases "map_of (schedule s) (strftime_HM tm)")
    case None
    then have "strftime_HM tm \<notin> fst ` set (schedule s)"
      by (simp add: map_of_eq_None_iff)
    with assms None show ?thesis
      by (simp add: schedule_task_schedule [OF Some] well_formed_def is_dict_def
          no_empty_slot_def slots_distinct_def)
  next
    case (Some ids)
    then have "(strftime_HM tm, ids) \<in> set (schedule s)"
      by (rule map_of_SomeD)
    with assms have "distinct ids"
      by (auto simp: well_formed_def slots_distinct_def list_all_iff)
    with assms Some show ?thesis
      by (simp add: schedule_task_schedule [OF \<open>strptime_HM t = Some tm\<close>] well_formed_def
          is_dict_def no_empty_slot_def slots_distinct_def distinct_update list_all_update)
  qed
qed

lemma schedule_task_ids:
  "set (scheduled_ids (schedule (snd (schedule_task s tid t))))
     \<subseteq> insert tid (set (scheduled_ids (schedule s)))"
proof (cases "strptime_HM t")
  case None
  then show ?thesis by (auto simp: schedule_task_unparsed)
next
  case (Some tm)
  show ?thesis
  proof (cases "map_of (schedule s) (strftime_HM tm)")
    case None
    then show ?thesis
      by (auto simp: schedule_task_schedule [OF Some] scheduled_ids_def)
  next
    case (Some ids)
    with scheduled_ids_update [of "strftime_HM tm" "ids @ [tid]" "schedule s"]
      map_of_slot [OF Some]
    show ?thesis
      by (auto simp: schedule_task_schedule [OF \<open>strptime_HM t = Some tm\<close>])
  qed
qed

lemma purged_schedule:
  "well_formed d \<Longrightarrow>
     purge_slots tid (map fst d) (d, False) = (without_id tid d, tid \<in> set (scheduled_ids d))"
  by (simp add: well_formed_def purge_slots_dict purge_each_without_id)

lemma add_task_schedule:
  "schedule (snd (add_task s name prio st now)) =
     (case st of None \<Rightarrow> schedule s
      | Some ts \<Rightarrow> if ts \<noteq> [] then
          schedule (snd (schedule_task (s\<lparr>tasks := tasks s @ [\<lparr>task_id = int (length (tasks s)) + 1,
             task_name = name, priority = prio, completed = False, created_at = now\<rparr>]\<rparr>)
             (int (length (tasks s)) + 1) ts))
          else schedule s)"
  by (simp add: add_task_def Let_def split: option.splits)

lemma exec_call_well_formed:
  assumes "well_formed (schedule s)"
  shows "well_formed (schedule (exec_call s c))"
proof (cases c)
  case (Add_task name prio st now)
  show ?thesis
  proof (cases st)
    case None
    with assms Add_task show ?thesis by (simp add: add_task_schedule)
  next
    case (Some ts)
    let ?s1 = "s\<lparr>tasks := tasks s @ [\<lparr>task_id = int (length (tasks s)) + 1,
             task_name = name, priority = prio, completed = False, created_at = now\<rparr>]\<rparr>"
    from assms have "well_formed (schedule ?s1)" by simp
    from schedule_task_well_formed [OF this] assms Add_task Some show ?thesis
      by (simp add: add_task_schedule)
  qed
next
  case (Remove_task tid)
  with assms show ?thesis
    by (simp add: remove_task_def purged_schedule without_id_well_formed split: option.splits)
next
  case (Mark_complete tid)
  with assms show ?thesis
    by (simp add: mark_complete_def split: option.splits)
next
  case (Schedule_task tid ts)
  with assms show ?thesis
    by (simp add: schedule_task_well_formed)
next
  case (Unschedule_task tid)
  with assms show ?thesis
    by (simp add: unschedule_task_def Let_def purged_schedule without_id_well_formed)
qed

lemma run_calls_well_formed:
  "well_formed (schedule s) \<Longrightarrow> well_formed (schedule (run_calls s cs))"
  by (induction cs arbitrary: s) (simp_all add: run_calls_def exec_call_well_formed)

lemma init_well_formed: "well_formed (schedule init_todo)"
  by (simp add: init_todo_def well_formed_def is_dict_def no_empty_slot_def slots_distinct_def)

lemma without_first_ids:
  "set (map task_id ts) - {tid} \<subseteq> set (map task_id (without_first tid ts))"
  by (induction ts) (auto simp: without_first_def)

lemma complete_first_map_ids:
  "complete_first tid ts = Some us \<Longrightarrow> map task_id us = map task_id ts"
  by (induction ts arbitrary: us) (auto split: if_splits)

lemma complete_first_ids:
  "complete_first tid ts = Some us \<Longrightarrow> task_id ` set us = task_id ` set ts"
  using complete_first_map_ids [of tid ts us] by (metis set_map)

lemma exec_call_refs_live:
  assumes wf: "well_formed (schedule s)" and ok: "refs_live s"
    and live: "schedules_live s [c]"
  shows "refs_live (exec_call s c)"
proof (cases c)
  case (Add_task name prio st now)
  let ?s1 = "s\<lparr>tasks := tasks s @ [\<lparr>task_id = int (length (tasks s)) + 1,
             task_name = name, priority = prio, completed = False, created_at = now\<rparr>]\<rparr>"
  have "set (scheduled_ids (schedule (snd (add_task s name prio st now))))
      \<subseteq> insert (int (length (tasks s)) + 1) (set (scheduled_ids (schedule s)))"
    using schedule_task_ids [of ?s1 "int (length (tasks s)) + 1"]
    by (auto simp: add_task_schedule split: option.splits)
  with ok Add_task show ?thesis
    by (auto simp: refs_live_def task_ids_def add_task_tasks)
next
  case (Remove_task tid)
  show ?thesis
  proof (cases "tid \<in> task_id ` set (tasks s)")
    case False
    with ok Remove_task show ?thesis
      by (simp add: remove_task_def pop_first_eq)
  next
    case True
    with wf Remove_task have "exec_call s c
        = \<lparr>tasks = without_first tid (tasks s), schedule = without_id tid (schedule s)\<rparr>"
      by (simp add: remove_task_def pop_first_eq purged_schedule)
    with ok without_id_ids [of tid "schedule s"] without_first_ids [of "tasks s" tid]
    show ?thesis
      by (simp add: refs_live_def task_ids_def) blast
  qed
next
  case (Mark_complete tid)
  with ok show ?thesis
    by (auto simp: refs_live_def task_ids_def mark_complete_def complete_first_ids
        split: option.splits)
next
  case (Schedule_task tid ts)
  with live have "tid \<in> set (task_ids s)" by simp
  with ok Schedule_task schedule_task_ids [of s tid ts] show ?thesis
    by (auto simp: refs_live_def task_ids_def schedule_task_tasks)
next
  case (Unschedule_task tid)
  with wf ok without_id_ids [of tid "schedule s"] show ?thesis
    by (auto simp: refs_live_def task_ids_def unschedule_task_def Let_def purged_schedule)
qed

lemma schedules_live_Cons:
  "schedules_live s (c # cs) = (schedules_live s [c] \<and> schedules_live (exec_call s c) cs)"
  by (cases c) simp_all

lemma run_calls_refs_live:
  "well_formed (schedule s) \<Longrightarrow> refs_live s \<Longrightarrow> schedules_live s cs \<Longrightarrow>
     refs_live (run_calls s cs)"
proof (induction cs arbitrary: s)
  case Nil
  then show ?case by (simp add: run_calls_def)
next
  case (Cons c cs)
  from Cons.prems(3) have l: "schedules_live s [c]" "schedules_live (exec_call s c) cs"
    by (simp_all add: schedules_live_Cons [of s c cs])
  from Cons.IH [OF exec_call_well_formed [OF Cons.prems(1)]
      exec_call_refs_live [OF Cons.prems(1,2) l(1)] l(2)]
  show ?case by (simp add: run_calls_def)
qed

lemma slots_of_simps:
  "slots_of [] tid = []"
  "slots_of (e # d) tid = (if tid \<in> set (snd e) then fst e # slots_of d tid else slots_of d tid)"
  by (simp_all add: slots_of_def)

lemma slots_of_update:
  "tid \<in> set v \<Longrightarrow> set (slots_of (AList.update k v d) tid) = insert k (set (slots_of d tid))"
  by (induction d) (auto simp: slots_of_simps)

lemma slots_of_present:
  "map_of d k = Some ids \<Longrightarrow> tid \<in> set ids \<Longrightarrow> k \<in> set (slots_of d tid)"
  by (induction d) (auto simp: slots_of_simps split: if_splits)

lemma schedule_task_slots:
  assumes "strptime_HM t = Some tm"
  shows "set (slots_of (schedule (snd (schedule_task s tid t))) tid)
     = insert (strftime_HM tm) (set (slots_of (schedule s) tid))"
proof (cases "map_of (schedule s) (strftime_HM tm)")
  case None
  then show ?thesis
    by (simp add: schedule_task_schedule [OF assms] slots_of_def)
next
  case (Some ids)
  show ?thesis
  proof (cases "tid \<in> set ids")
    case True
    with Some slots_of_present [OF Some True] show ?thesis
      by (auto simp: schedule_task_schedule [OF assms])
  next
    case False
    with Some show ?thesis
      by (simp add: schedule_task_schedule [OF assms] slots_of_update)
  qed
qed

section \<open>Facts about saving and loading\<close>

lemma task_roundtrip: "task_of_json (task_to_json t) = Some t"
  by (simp add: task_to_json_def field_def)

lemma those_map_Some: "(\<And>x. h x = Some x) \<Longrightarrow> those (map h xs) = Some xs"
  by (induction xs) simp_all

lemma tasks_roundtrip: "tasks_of_json (JArr (map task_to_json ts)) = Some ts"
  by (simp add: those_map_Some task_roundtrip)

lemma ids_roundtrip: "ids_of_json (JArr (map JInt ids)) = Some ids"
  by (simp add: those_map_Some)

lemma schedule_roundtrip: "schedule_of_json (schedule_to_json d) = Some d"
  by (simp add: schedule_to_json_def those_map_Some ids_roundtrip)

section \<open>The claims\<close>

subsection \<open>C1: identifiers\<close>

text \<open>
  Claim C1 says that \<open>add_task\<close> returns the number of tasks ever created plus one, an id
  never assigned before, also after deletions. The code computes the id from the current
  length of the task list (line 14). After two additions and the removal of task 1, two
  tasks have been created and the task with id 2 is still in the store; the third
  \<open>add_task\<close> returns 2 and not 3, and the store then holds two tasks with id 2.
\<close>

theorem add_task_reuses_id:
  "let s1 = snd (add_task init_todo ''a'' ''medium'' None ''2024-01-01 10:00'');
       s2 = snd (add_task s1 ''b'' ''medium'' None ''2024-01-01 10:01'');
       s3 = snd (remove_task s2 1)
   in task_ids s3 = [2] \<and> fst (add_task s3 ''c'' ''medium'' None ''2024-01-01 10:02'') = 2
      \<and> task_ids (snd (add_task s3 ''c'' ''medium'' None ''2024-01-01 10:02'')) = [2, 2]"
  by (simp add: op_defs task_ids_def Let_def)

subsection \<open>C2: the ids in the schedule\<close>

text \<open>
  Claim C2 says that in every state reached from the empty store every id in the schedule
  is the id of a task in the store. \<open>schedule_task\<close> does not look at the task list: on
  the empty store, scheduling the id 99 succeeds, and the schedule then holds an id that
  no task has.
\<close>

theorem schedule_task_unknown_id_counterexample:
  "99 \<in> set (scheduled_ids (schedule (run_calls init_todo [Schedule_task 99 (str ''08:00'')])))
   \<and> 99 \<notin> set (task_ids (run_calls init_todo [Schedule_task 99 (str ''08:00'')]))"
  by (simp add: parse_defs op_defs scheduled_ids_def task_ids_def)

text \<open>
  Claim C2 as amended: in every state reached from the empty store by \<open>add_task\<close>,
  \<open>remove_task\<close>, \<open>mark_complete\<close>, \<open>unschedule_task\<close>, and \<open>schedule_task\<close> calls whose id
  is the id of a task in the store at the time of the call, every id in a slot of the
  schedule is the id of a task in the store.
\<close>

theorem scheduled_ids_refer_to_tasks:
  assumes "schedules_live init_todo cs"
  shows "set (scheduled_ids (schedule (run_calls init_todo cs)))
    \<subseteq> set (task_ids (run_calls init_todo cs))"
proof -
  have "refs_live init_todo"
    by (simp add: refs_live_def init_todo_def scheduled_ids_def)
  from run_calls_refs_live [OF init_well_formed this assms] show ?thesis
    by (simp add: refs_live_def)
qed

theorem scheduled_ids_refer_to_tasks_witness:
  "schedules_live init_todo
     [Add_task ''a'' ''high'' (Some (str ''09:30'')) ''2024-01-01 10:00'',
      Add_task ''b'' ''low'' None ''2024-01-01 10:01'',
      Schedule_task 2 (str ''9:5''), Mark_complete 2, Unschedule_task 1, Remove_task 1]
   \<and> set (scheduled_ids (schedule (run_calls init_todo
     [Add_task ''a'' ''high'' (Some (str ''09:30'')) ''2024-01-01 10:00'',
      Add_task ''b'' ''low'' None ''2024-01-01 10:01'',
      Schedule_task 2 (str ''9:5''), Mark_complete 2, Unschedule_task 1, Remove_task 1])))
    \<subseteq> set (task_ids (run_calls init_todo
     [Add_task ''a'' ''high'' (Some (str ''09:30'')) ''2024-01-01 10:00'',
      Add_task ''b'' ''low'' None ''2024-01-01 10:01'',
      Schedule_task 2 (str ''9:5''), Mark_complete 2, Unschedule_task 1, Remove_task 1]))
   \<and> scheduled_ids (schedule (run_calls init_todo
     [Add_task ''a'' ''high'' (Some (str ''09:30'')) ''2024-01-01 10:00'',
      Add_task ''b'' ''low'' None ''2024-01-01 10:01'',
      Schedule_task 2 (str ''9:5''), Mark_complete 2, Unschedule_task 1, Remove_task 1])) = [2]"
proof -
  have h: "schedules_live init_todo
     [Add_task ''a'' ''high'' (Some (str ''09:30'')) ''2024-01-01 10:00'',
      Add_task ''b'' ''low'' None ''2024-01-01 10:01'',
      Schedule_task 2 (str ''9:5''), Mark_complete 2, Unschedule_task 1, Remove_task 1]"
    by (simp add: parse_defs op_defs task_ids_def)
  have v: "scheduled_ids (schedule (run_calls init_todo
     [Add_task ''a'' ''high'' (Some (str ''09:30'')) ''2024-01-01 10:00'',
      Add_task ''b'' ''low'' None ''2024-01-01 10:01'',
      Schedule_task 2 (str ''9:5''), Mark_complete 2, Unschedule_task 1, Remove_task 1])) = [2]"
    by (simp add: parse_defs op_defs scheduled_ids_def)
  from scheduled_ids_refer_to_tasks [OF h] h v show ?thesis
    by simp
qed

subsection \<open>C3: the time strings that \<open>schedule_task\<close> accepts\<close>

text \<open>
  Claim C3 says that \<open>schedule_task\<close> accepts the zero-padded strings only and fails on
  every other string, such as \<open>9:5\<close>. The string \<open>9:5\<close> is not zero-padded, and the call
  succeeds: the task is put into the slot \<open>09:05\<close>.
\<close>

theorem schedule_task_unpadded_counterexample:
  "\<not> zero_padded_HM (str ''9:5'')
   \<and> schedule_task init_todo 1 (str ''9:5'')
       = (True, \<lparr>tasks = [], schedule = [(''09:05'', [1])]\<rparr>)"
  by (simp add: shape_eval parse_defs op_defs)

text \<open>
  Claim C3 as amended: \<open>schedule_task\<close> accepts exactly the strings made of an hour
  field, a colon and a minute field, where the hour field is a decimal digit, or \<open>2\<close>
  and one of \<open>0\<close> to \<open>3\<close>, or \<open>0\<close> or \<open>1\<close> and a decimal digit, and the minute field is a
  decimal digit, or one of \<open>0\<close> to \<open>5\<close> and a decimal digit; the characters named are
  ASCII and a decimal digit is any Unicode decimal digit. It fails on every other string.
  Among the strings of ASCII characters, the accepted ones are exactly those of the
  lenient shape: an hour of one or two digits below 24, a colon, and a minute of one or
  two digits below 60. On success the task is in the slot whose key is the zero-padded
  rendering of the time in ASCII digits; for a zero-padded string that key is the input
  itself.
\<close>

theorem schedule_task_accepts_exactly:
  "fst (schedule_task s tid t) = accepted_HM t
   \<and> (accepted_HM t \<longrightarrow>
        tid \<in> set (slot_ids (schedule (snd (schedule_task s tid t))) (canonical_HM t))
        \<and> zero_padded_HM (str (canonical_HM t)))
   \<and> (list_all (\<lambda>c. c < 128) t \<longrightarrow> accepted_HM t = lenient_HM t)
   \<and> (zero_padded_HM t \<longrightarrow> accepted_HM t \<and> str (canonical_HM t) = t)"
proof -
  have 1: "fst (schedule_task s tid t) = accepted_HM t"
    "accepted_HM t \<Longrightarrow>
       tid \<in> set (slot_ids (schedule (snd (schedule_task s tid t))) (canonical_HM t))"
  proof -
    show "fst (schedule_task s tid t) = accepted_HM t"
    proof (cases "accepted_HM t")
      case True
      then have "strptime_HM t
          = Some (int_of_digits (fst (hm_fields t)), int_of_digits (snd (hm_fields t)))"
        by (simp add: strptime_accepted)
      from schedule_task_accepts [OF this, of s tid] True show ?thesis
        by simp
    next
      case False
      then have "strptime_HM t = None"
        by (simp add: strptime_accepted)
      with False show ?thesis
        by (simp add: schedule_task_def)
    qed
  next
    assume "accepted_HM t"
    then have "strptime_HM t
        = Some (int_of_digits (fst (hm_fields t)), int_of_digits (snd (hm_fields t)))"
      by (simp add: strptime_accepted)
    from schedule_task_accepts [OF this, of s tid]
    show "tid \<in> set (slot_ids (schedule (snd (schedule_task s tid t))) (canonical_HM t))"
      by (simp add: canonical_HM_def)
  qed
  have 2: "accepted_HM t = lenient_HM t" if "list_all (\<lambda>c. c < 128) t"
    using that accepted_ascii_lenient [of t] lenient_accepted [of t] by blast
  have 3: "accepted_HM t \<and> str (canonical_HM t) = t" if "zero_padded_HM t"
    using that zero_padded_canonical [of t] lenient_accepted [of t]
    by (simp add: zero_padded_HM_def)
  from 1 2 3 canonical_zero_padded [of t] show ?thesis
    by blast
qed

text \<open>
  The instances are \<open>9:5\<close>, \<open>23:59\<close> and \<open>24:00\<close>, then with the Arabic-Indic digits
  (U+0660 to U+0669) the strings of U+0663, colon, U+0665, accepted as \<open>03:05\<close>, and of
  U+0662, U+0663, colon, U+0660, U+0660, which fails because a two-digit hour starts with
  an ASCII digit.
\<close>

theorem schedule_task_accepts_exactly_witness:
  "lenient_HM (str ''9:5'') \<and> fst (schedule_task init_todo 1 (str ''9:5''))
   \<and> canonical_HM (str ''9:5'') = ''09:05''
   \<and> 1 \<in> set (slot_ids (schedule (snd (schedule_task init_todo 1 (str ''9:5'')))) ''09:05'')
   \<and> zero_padded_HM (str ''23:59'') \<and> canonical_HM (str ''23:59'') = ''23:59''
   \<and> 1 \<in> set (slot_ids (schedule (snd (schedule_task init_todo 1 (str ''23:59''))))
                ''23:59'')
   \<and> \<not> accepted_HM (str ''24:00'') \<and> \<not> fst (schedule_task init_todo 1 (str ''24:00''))
   \<and> accepted_HM [1635, 58, 1637] \<and> canonical_HM [1635, 58, 1637] = ''03:05''
   \<and> 1 \<in> set (slot_ids (schedule (snd (schedule_task init_todo 1 [1635, 58, 1637])))
                ''03:05'')
   \<and> \<not> accepted_HM [1634, 1635, 58, 1632, 1632]
   \<and> \<not> fst (schedule_task init_todo 1 [1634, 1635, 58, 1632, 1632])"
proof -
  have a: "lenient_HM (str ''9:5'')" "canonical_HM (str ''9:5'') = ''09:05''"
    "zero_padded_HM (str ''23:59'')" "canonical_HM (str ''23:59'') = ''23:59''"
    "\<not> accepted_HM (str ''24:00'')"
    "accepted_HM [1635, 58, 1637]" "canonical_HM [1635, 58, 1637] = ''03:05''"
    "\<not> accepted_HM [1634, 1635, 58, 1632, 1632]"
    "list_all (\<lambda>c. c < 128) (str ''9:5'')"
    by (simp_all add: shape_eval parse_defs)
  with schedule_task_accepts_exactly [of init_todo 1 "str ''9:5''"]
    schedule_task_accepts_exactly [of init_todo 1 "str ''23:59''"]
    schedule_task_accepts_exactly [of init_todo 1 "str ''24:00''"]
    schedule_task_accepts_exactly [of init_todo 1 "[1635, 58, 1637]"]
    schedule_task_accepts_exactly [of init_todo 1 "[1634, 1635, 58, 1632, 1632]"]
  show ?thesis
    by simp
qed

subsection \<open>C4: the slots of one id\<close>

text \<open>
  Claim C4 says that an id is in one slot at most, and that scheduling it into a different
  slot takes it out of the previous one. \<open>schedule_task\<close> only adds: after task 1 is
  scheduled at 08:00 and then at 09:00 it is in both slots.
\<close>

theorem schedule_task_two_slots_counterexample:
  "slots_of (schedule (run_calls init_todo
     [Add_task ''a'' ''high'' None ''2024-01-01 10:00'',
      Schedule_task 1 (str ''08:00''), Schedule_task 1 (str ''09:00'')])) 1 = [''08:00'', ''09:00'']"
  by (simp add: parse_defs op_defs slots_of_def)

text \<open>
  Claim C4 as amended: in every state reached from the empty store an id is at most once
  in any one slot, and it may be in several slots. A successful \<open>schedule_task\<close> of an id
  adds the slot of the parsed time to the slots that list the id and leaves the id in
  every slot that listed it before.
\<close>

theorem schedule_task_keeps_previous_slots:
  "slots_distinct (schedule (run_calls init_todo cs))
   \<and> (accepted_HM t \<longrightarrow>
        fst (schedule_task s tid t)
        \<and> set (slots_of (schedule (snd (schedule_task s tid t))) tid)
            = insert (canonical_HM t) (set (slots_of (schedule s) tid)))"
proof -
  from run_calls_well_formed [OF init_well_formed, of cs]
  have "slots_distinct (schedule (run_calls init_todo cs))"
    by (simp add: well_formed_def)
  moreover have "fst (schedule_task s tid t)
        \<and> set (slots_of (schedule (snd (schedule_task s tid t))) tid)
            = insert (canonical_HM t) (set (slots_of (schedule s) tid))" if "accepted_HM t"
  proof -
    from that have p: "strptime_HM t
        = Some (int_of_digits (fst (hm_fields t)), int_of_digits (snd (hm_fields t)))"
      by (simp add: strptime_accepted)
    from schedule_task_accepts [OF p, of s tid] schedule_task_slots [OF p, of s tid]
    show ?thesis
      by (simp add: canonical_HM_def)
  qed
  ultimately show ?thesis
    by blast
qed

theorem schedule_task_keeps_previous_slots_witness:
  "slots_distinct
     (schedule (run_calls init_todo
        [Schedule_task 1 (str ''08:00''), Schedule_task 1 (str ''08:00'')]))
   \<and> accepted_HM (str ''09:00'')
   \<and> fst (schedule_task \<lparr>tasks = [], schedule = [(''08:00'', [1])]\<rparr> 1 (str ''09:00''))
   \<and> set (slots_of (schedule (snd
         (schedule_task \<lparr>tasks = [], schedule = [(''08:00'', [1])]\<rparr> 1 (str ''09:00'')))) 1)
       = {''08:00'', ''09:00''}"
proof -
  have a: "accepted_HM (str ''09:00'')" "canonical_HM (str ''09:00'') = ''09:00''"
    by (simp_all add: shape_eval parse_defs)
  with schedule_task_keeps_previous_slots
    [of "[Schedule_task 1 (str ''08:00''), Schedule_task 1 (str ''08:00'')]" "str ''09:00''"
      "\<lparr>tasks = [], schedule = [(''08:00'', [1])]\<rparr>" 1]
  show ?thesis
    by (auto simp: slots_of_def)
qed

subsection \<open>C5: the priority of a new task\<close>

text \<open>
  Claim C5 says that \<open>add_task\<close> itself coerces a priority other than high, medium or low
  to medium. It does not: the priority \<open>urgent\<close> is stored as given.
\<close>

theorem add_task_coerce_counterexample:
  "priority (last (tasks (snd (add_task init_todo ''x'' ''urgent'' None ''2024-01-01 10:00''))))
     = ''urgent''
   \<and> ''urgent'' \<noteq> ''medium''"
  by (simp add: add_task_tasks)

text \<open>
  Claim C5 as amended: for every description and every priority string, the task that
  \<open>add_task\<close> stores has the priority it was given, whatever it is. The coercion to medium
  is the menu's (lines 200-202), before it calls \<open>add_task\<close>: a priority that went through
  it is stored as high, medium or low.
\<close>

theorem add_task_stores_priority_as_given:
  "priority (last (tasks (snd (add_task s name prio st now)))) = prio
   \<and> priority (last (tasks (snd (add_task s name (menu_priority p) st now))))
       \<in> {''high'', ''medium'', ''low''}"
  by (simp add: add_task_tasks menu_priority_def)

theorem add_task_stores_priority_as_given_witness:
  "priority (last (tasks (snd (add_task init_todo ''x'' ''HIGH!'' None ''2024-01-01 10:00''))))
     = ''HIGH!''
   \<and> priority (last (tasks (snd (add_task init_todo ''x'' (menu_priority ''HIGH!'') None
         ''2024-01-01 10:00'')))) = ''medium''"
  using add_task_stores_priority_as_given
    [of init_todo "''x''" "''HIGH!''" None "''2024-01-01 10:00''" "''HIGH!''"]
  by (simp add: menu_priority_def add_task_tasks)

subsection \<open>C6: removing a task\<close>

text \<open>
  Claim C6 speaks of every state. \<open>remove_task\<close> takes the first occurrence of the id out
  of each slot and deletes a slot only when that step empties it. In a state that lists
  the id twice in a slot, or that has an empty slot (\<open>load_data\<close> takes both from a file
  as they are), the id is still in a slot afterwards and the empty slot is still there.
\<close>

theorem remove_task_stale_slot_counterexample:
  "remove_task
     \<lparr>tasks = [\<lparr>task_id = 1, task_name = ''a'', priority = ''low'', completed = False,
                 created_at = ''2024-01-01 10:00''\<rparr>],
      schedule = [(''08:00'', [1, 1]), (''09:00'', [])]\<rparr> 1
   = (True, \<lparr>tasks = [], schedule = [(''08:00'', [1]), (''09:00'', [])]\<rparr>)"
  by (simp add: op_defs)

text \<open>
  Claim C6 as amended: for every state whose schedule is well formed (no empty slot and no
  id twice in a slot, which holds in every state reached from the empty store by the five
  operations) and every id of a task in the store, \<open>remove_task\<close> returns true, removes the
  first task with that id from the task list, removes the id from every slot that listed
  it and deletes every slot that this leaves empty; afterwards no slot lists the id and no
  slot is empty. For an id that no task has, it returns false and the state is unchanged.
\<close>

theorem remove_task_cascades:
  "well_formed (schedule (run_calls init_todo cs))
   \<and> (well_formed (schedule s) \<longrightarrow>
       (tid \<in> set (task_ids s) \<longrightarrow>
          remove_task s tid
            = (True, \<lparr>tasks = without_first tid (tasks s),
                      schedule = without_id tid (schedule s)\<rparr>)
          \<and> tid \<notin> set (scheduled_ids (without_id tid (schedule s)))
          \<and> no_empty_slot (without_id tid (schedule s)))
       \<and> (tid \<notin> set (task_ids s) \<longrightarrow> remove_task s tid = (False, s)))"
  using run_calls_well_formed [OF init_well_formed, of cs]
    without_id_well_formed [of "schedule s" tid]
  by (auto simp: remove_task_def pop_first_eq purged_schedule without_id_free task_ids_def
      well_formed_def)

theorem remove_task_cascades_witness:
  "well_formed [(''08:00'', [1, 2]), (''09:00'', [1])]
   \<and> remove_task
     \<lparr>tasks = [\<lparr>task_id = 1, task_name = ''a'', priority = ''low'', completed = False,
                 created_at = ''2024-01-01 10:00''\<rparr>,
               \<lparr>task_id = 2, task_name = ''b'', priority = ''low'', completed = False,
                 created_at = ''2024-01-01 10:01''\<rparr>],
      schedule = [(''08:00'', [1, 2]), (''09:00'', [1])]\<rparr> 1
   = (True, \<lparr>tasks = [\<lparr>task_id = 2, task_name = ''b'', priority = ''low'', completed = False,
                 created_at = ''2024-01-01 10:01''\<rparr>],
             schedule = [(''08:00'', [2])]\<rparr>)
   \<and> remove_task
     \<lparr>tasks = [\<lparr>task_id = 1, task_name = ''a'', priority = ''low'', completed = False,
                 created_at = ''2024-01-01 10:00''\<rparr>,
               \<lparr>task_id = 2, task_name = ''b'', priority = ''low'', completed = False,
                 created_at = ''2024-01-01 10:01''\<rparr>],
      schedule = [(''08:00'', [1, 2]), (''09:00'', [1])]\<rparr> 7
   = (False, \<lparr>tasks = [\<lparr>task_id = 1, task_name = ''a'', priority = ''low'', completed = False,
                 created_at = ''2024-01-01 10:00''\<rparr>,
               \<lparr>task_id = 2, task_name = ''b'', priority = ''low'', completed = False,
                 created_at = ''2024-01-01 10:01''\<rparr>],
      schedule = [(''08:00'', [1, 2]), (''09:00'', [1])]\<rparr>)"
proof -
  have w: "well_formed [(''08:00'', [1, 2]), (''09:00'', [1])]"
    by (simp add: well_formed_def is_dict_def no_empty_slot_def slots_distinct_def)
  with remove_task_cascades [of "[]"
     "\<lparr>tasks = [\<lparr>task_id = 1, task_name = ''a'', priority = ''low'', completed = False,
                 created_at = ''2024-01-01 10:00''\<rparr>,
               \<lparr>task_id = 2, task_name = ''b'', priority = ''low'', completed = False,
                 created_at = ''2024-01-01 10:01''\<rparr>],
      schedule = [(''08:00'', [1, 2]), (''09:00'', [1])]\<rparr>" 1]
    remove_task_cascades [of "[]"
     "\<lparr>tasks = [\<lparr>task_id = 1, task_name = ''a'', priority = ''low'', completed = False,
                 created_at = ''2024-01-01 10:00''\<rparr>,
               \<lparr>task_id = 2, task_name = ''b'', priority = ''low'', completed = False,
                 created_at = ''2024-01-01 10:01''\<rparr>],
      schedule = [(''08:00'', [1, 2]), (''09:00'', [1])]\<rparr>" 7]
  show ?thesis
    by (simp add: task_ids_def without_first_def without_id_def)
qed

subsection \<open>C7: a time string that does not parse\<close>

text \<open>
  Claim C7 speaks of every time string on which the strict parse fails, the strict parse
  being the zero-padded one. The string \<open>8:0\<close> is not zero-padded, and \<open>schedule_task\<close>
  does not fail on it: it returns true and adds the id to the slot \<open>08:00\<close>.
\<close>

theorem schedule_task_unpadded_changes_state_counterexample:
  "\<not> zero_padded_HM (str ''8:0'')
   \<and> schedule_task \<lparr>tasks = [], schedule = [(''08:00'', [1])]\<rparr> 7 (str ''8:0'')
       = (True, \<lparr>tasks = [], schedule = [(''08:00'', [1, 7])]\<rparr>)"
  by (simp add: shape_eval parse_defs op_defs)

text \<open>
  Claim C7 as amended: for every state, every task id and every time string that is not
  of the accepted shape (the shape of claim C3 as amended; a wrong separator, an hour or
  a minute out of range and a field that is not numeric are all outside it),
  \<open>schedule_task\<close> returns failure and the task list and the schedule are exactly as
  before the call. A string that is accepted without being zero-padded is scheduled.
\<close>

theorem schedule_task_rejected_time:
  assumes "\<not> accepted_HM time_str"
  shows "schedule_task s tid time_str = (False, s)"
proof -
  from assms have "strptime_HM time_str = None"
    by (simp add: strptime_accepted)
  then show ?thesis
    by (simp add: schedule_task_def)
qed

theorem schedule_task_rejected_time_witness:
  "\<not> accepted_HM (str ''24:00'') \<and> \<not> accepted_HM (str ''09-05'')
   \<and> \<not> accepted_HM (str ''09:60'') \<and> \<not> accepted_HM (str ''ab:cd'')
   \<and> \<not> accepted_HM [65305, 58, 65299, 65296]
   \<and> schedule_task \<lparr>tasks = [], schedule = [(''08:00'', [1])]\<rparr> 7 (str ''24:00'')
      = (False, \<lparr>tasks = [], schedule = [(''08:00'', [1])]\<rparr>)
   \<and> schedule_task \<lparr>tasks = [], schedule = [(''08:00'', [1])]\<rparr> 7 (str ''09-05'')
      = (False, \<lparr>tasks = [], schedule = [(''08:00'', [1])]\<rparr>)"
proof -
  have h: "\<not> accepted_HM (str ''24:00'')" "\<not> accepted_HM (str ''09-05'')"
    "\<not> accepted_HM (str ''09:60'')" "\<not> accepted_HM (str ''ab:cd'')"
    "\<not> accepted_HM [65305, 58, 65299, 65296]"
    by (simp_all add: shape_eval parse_defs)
  from h schedule_task_rejected_time [OF h(1), of "\<lparr>tasks = [], schedule = [(''08:00'', [1])]\<rparr>" 7]
    schedule_task_rejected_time [OF h(2), of "\<lparr>tasks = [], schedule = [(''08:00'', [1])]\<rparr>" 7]
  show ?thesis
    by simp
qed

subsection \<open>C8: saving and loading again\<close>

text \<open>
  Claim C8: for every state, \<open>load_data\<close> on the file that \<open>save_data\<close> wrote for that
  state gives the same state, whatever the state was before the load: the same tasks with
  all their fields in the same order, and the same slots in the same order, each with its
  ids in the same order.
\<close>

theorem load_after_save:
  "load_data (save_data s) s0 = Loaded s"
  using tasks_roundtrip [of "tasks s"] schedule_roundtrip [of "schedule s"]
  by (simp add: load_data_def save_data_def dict_get_def del: tasks_of_json.simps)

theorem load_after_save_witness:
  "load_data (save_data
     \<lparr>tasks = [\<lparr>task_id = 1, task_name = ''Buy milk'', priority = ''high'', completed = True,
                 created_at = ''2024-01-01 10:00''\<rparr>],
      schedule = [(''09:30'', [1]), (''08:00'', [1, 2])]\<rparr>) init_todo
   = Loaded
     \<lparr>tasks = [\<lparr>task_id = 1, task_name = ''Buy milk'', priority = ''high'', completed = True,
                 created_at = ''2024-01-01 10:00''\<rparr>],
      schedule = [(''09:30'', [1]), (''08:00'', [1, 2])]\<rparr>"
  using load_after_save
    [of "\<lparr>tasks = [\<lparr>task_id = 1, task_name = ''Buy milk'', priority = ''high'',
                       completed = True, created_at = ''2024-01-01 10:00''\<rparr>],
          schedule = [(''09:30'', [1]), (''08:00'', [1, 2])]\<rparr>" init_todo]
  by simp

subsection \<open>C9: a missing or malformed file\<close>

text \<open>
  Claim C9 says that loading a missing or malformed file never raises and gives the empty
  state. It holds for a missing file at construction and for a text that is not JSON. A
  file whose text is JSON but not an object, here the empty array, is decoded to a list;
  line 166 calls \<open>get\<close> on it, and the \<open>AttributeError\<close> is not among the exceptions that
  line 169 catches: the constructor raises.
\<close>

theorem load_non_object_raises:
  "new_todo (Contents (JArr [])) = Raised AttributeError
   \<and> new_todo Missing = Loaded \<lparr>tasks = [], schedule = []\<rparr>
   \<and> new_todo Undecodable = Loaded \<lparr>tasks = [], schedule = []\<rparr>"
  by (simp add: new_todo_def load_data_def init_todo_def)

subsection \<open>C10: what \<open>mark_complete\<close> leaves alone\<close>

text \<open>
  Claim C10: \<open>mark_complete\<close> changes at most the \<open>completed\<close> field of the task whose id
  matches. The schedule is unchanged. When the id is found, the task list differs from
  the old one in one task only, the first one with that id, and only in its \<open>completed\<close>
  field, which is set; when it is not found, the state is unchanged. A second call with
  the same id returns the same result and leaves the state as the first call left it.
\<close>

theorem mark_complete_frame:
  assumes "mark_complete s tid = (found, s')"
  shows "schedule s' = schedule s
    \<and> (if found
       then \<exists>pre t post. tasks s = pre @ t # post \<and> task_id t = tid
              \<and> tid \<notin> task_id ` set pre \<and> tasks s' = pre @ t\<lparr>completed := True\<rparr> # post
       else s' = s \<and> tid \<notin> task_id ` set (tasks s))
    \<and> mark_complete s' tid = (found, s')"
proof (cases "complete_first tid (tasks s)")
  case None
  with assms have "found = False" "s' = s"
    by (simp_all add: mark_complete_def)
  with None assms show ?thesis
    by (simp add: complete_first_None)
next
  case (Some ts)
  with assms have r: "found = True" "s' = s\<lparr>tasks := ts\<rparr>"
    by (auto simp: mark_complete_def)
  from complete_first_idem [OF Some] r have "mark_complete s' tid = (found, s')"
    by (simp add: mark_complete_def)
  with complete_first_split [OF Some] r show ?thesis
    by simp
qed

theorem mark_complete_frame_witness:
  "mark_complete
     \<lparr>tasks = [\<lparr>task_id = 1, task_name = ''a'', priority = ''low'', completed = False,
                 created_at = ''2024-01-01 10:00''\<rparr>],
      schedule = [(''08:00'', [1])]\<rparr> 1
   = (True,
     \<lparr>tasks = [\<lparr>task_id = 1, task_name = ''a'', priority = ''low'', completed = True,
                 created_at = ''2024-01-01 10:00''\<rparr>],
      schedule = [(''08:00'', [1])]\<rparr>)
   \<and> mark_complete
     \<lparr>tasks = [\<lparr>task_id = 1, task_name = ''a'', priority = ''low'', completed = True,
                 created_at = ''2024-01-01 10:00''\<rparr>],
      schedule = [(''08:00'', [1])]\<rparr> 1
   = (True,
     \<lparr>tasks = [\<lparr>task_id = 1, task_name = ''a'', priority = ''low'', completed = True,
                 created_at = ''2024-01-01 10:00''\<rparr>],
      schedule = [(''08:00'', [1])]\<rparr>)"
proof -
  have h: "mark_complete
     \<lparr>tasks = [\<lparr>task_id = 1, task_name = ''a'', priority = ''low'', completed = False,
                 created_at = ''2024-01-01 10:00''\<rparr>],
      schedule = [(''08:00'', [1])]\<rparr> 1
   = (True,
     \<lparr>tasks = [\<lparr>task_id = 1, task_name = ''a'', priority = ''low'', completed = True,
                 created_at = ''2024-01-01 10:00''\<rparr>],
      schedule = [(''08:00'', [1])]\<rparr>)"
    by (simp add: op_defs)
  from mark_complete_frame [OF h] h show ?thesis
    by simp
qed

end
